theory Spec2Isabelle
  imports Main
begin

section \<open>Python strings\<close>

text \<open>
  A Python \<open>str\<close> is a sequence of Unicode code points, so a string is a list of natural
  numbers, one per code point. \<open>lit\<close> turns an ASCII literal of the source into that form.
\<close>

type_synonym pystr = "nat list"

definition lit :: "string \<Rightarrow> pystr" where
  "lit s = map of_char s"

text \<open>Truthiness of an optional string: \<open>None\<close> and \<open>''\<close> are false.\<close>

fun truthy :: "pystr option \<Rightarrow> bool" where
  "truthy None = False"
| "truthy (Some s) = (s \<noteq> [])"

text \<open>\<open>sub in s\<close> for strings.\<close>

fun startswith :: "pystr \<Rightarrow> pystr \<Rightarrow> bool" where
  "startswith s [] = True"
| "startswith [] (p # ps) = False"
| "startswith (c # cs) (p # ps) = (c = p \<and> startswith cs ps)"

fun contains :: "pystr \<Rightarrow> pystr \<Rightarrow> bool" where
  "contains [] sub = (sub = [])"
| "contains (c # cs) sub = (startswith (c # cs) sub \<or> contains cs sub)"

text \<open>\<open>s.strip('/')\<close>: every leading and every trailing occurrence of the character goes.\<close>

definition strip :: "nat \<Rightarrow> pystr \<Rightarrow> pystr" where
  "strip c s = rev (dropWhile (\<lambda>x. x = c) (rev (dropWhile (\<lambda>x. x = c) s)))"

text \<open>
  \<open>os.path.join(a, *p)\<close> of \<open>posixpath\<close>: a component that starts with the separator
  discards what came before it; otherwise the component is appended, with a separator
  unless the path so far is empty or already ends in one.
\<close>

definition join_step :: "pystr \<Rightarrow> pystr \<Rightarrow> pystr" where
  "join_step path b =
     (if startswith b (lit ''/'') then b
      else if path = [] \<or> last path = 47 then path @ b
      else path @ lit ''/'' @ b)"

definition os_path_join :: "pystr \<Rightarrow> pystr list \<Rightarrow> pystr" where
  "os_path_join a p = foldl join_step a p"

section \<open>IRI to URI\<close>

text \<open>
  \<open>iri_to_uri(iri)\<close> is \<open>quote(iri, safe="/#%[]=:;$&()+,!?*@'~")\<close>: the string is
  encoded as UTF-8 (strictly: a lone surrogate raises \<open>UnicodeEncodeError\<close>), and every
  byte that is not a letter, a digit, one of \<open>_.-~\<close> or one of the safe characters is
  written as \<open>%XX\<close> with upper-case hexadecimal digits.
\<close>

definition utf8_encode_cp :: "nat \<Rightarrow> nat list option" where
  "utf8_encode_cp c =
     (if c < 0x80 then Some [c]
      else if c < 0x800 then Some [0xC0 + c div 64, 0x80 + c mod 64]
      else if c < 0x10000 then
        (if 0xD800 \<le> c \<and> c < 0xE000 then None
         else Some [0xE0 + c div 4096, 0x80 + (c div 64) mod 64, 0x80 + c mod 64])
      else if c < 0x110000 then
        Some [0xF0 + c div 262144, 0x80 + (c div 4096) mod 64,
              0x80 + (c div 64) mod 64, 0x80 + c mod 64]
      else None)"

fun utf8_encode :: "pystr \<Rightarrow> nat list option" where
  "utf8_encode [] = Some []"
| "utf8_encode (c # cs) =
     (case utf8_encode_cp c of
        None \<Rightarrow> None
      | Some bs \<Rightarrow> (case utf8_encode cs of None \<Rightarrow> None | Some rest \<Rightarrow> Some (bs @ rest)))"

definition always_safe :: "nat set" where
  "always_safe = set (lit (''ABCDEFGHIJKLMNOPQRSTUVWXYZ'' @ ''abcdefghijklmnopqrstuvwxyz''
                           @ ''0123456789'' @ ''_.-~''))"

definition iri_safe :: "nat set" where
  "iri_safe = set (lit (''/#%[]=:;$&()+,!?*@'' @ [CHR 0x27] @ ''~''))"

definition hexdigit :: "nat \<Rightarrow> nat" where
  "hexdigit n = (if n < 10 then 48 + n else 55 + n)"

definition quote_byte :: "nat \<Rightarrow> pystr" where
  "quote_byte b =
     (if b \<in> always_safe \<or> b \<in> iri_safe then [b]
      else [37, hexdigit (b div 16), hexdigit (b mod 16)])"

definition quote_from_bytes :: "nat list \<Rightarrow> pystr" where
  "quote_from_bytes bs = concat (map quote_byte bs)"

definition iri_to_uri :: "pystr \<Rightarrow> pystr option" where
  "iri_to_uri iri = map_option quote_from_bytes (utf8_encode iri)"

section \<open>Data model\<close>

record project =
  pk :: nat
  slug :: pystr
  language :: pystr
  single_version :: bool

text \<open>A row of \<open>ProjectRelationship\<close>: the parent's key, the child and the optional alias.\<close>

record relationship =
  parent_id :: nat
  child :: project
  rel_alias :: "pystr option"

record version =
  version_pk :: nat
  v_slug :: pystr

text \<open>
  The request, as far as the views read it: whether \<open>request.user\<close> is authenticated, and
  the values of \<open>request.get_full_path()\<close>, \<open>request.build_absolute_uri()\<close> and
  \<open>request.host_project_slug\<close>.
\<close>

record request =
  is_authenticated :: bool
  full_path :: pystr
  absolute_uri :: pystr
  host_project_slug :: pystr

datatype error =
    Http404 pystr
  | MultipleObjectsReturned
  | UnicodeEncodeError

text \<open>
  The responses the views build. \<open>Rendered t s\<close> is \<open>render(request, t)\<close> with status
  code \<open>s\<close>; \<open>CasLogin u n\<close> is what \<open>cas.views.login(request, next_page=n)\<close> returns
  while \<open>settings.CAS_SERVER_URL\<close> is \<open>u\<close>; \<open>FileResponse p\<close> is a file streamed by
  \<open>django.views.static.serve\<close>; \<open>HttpResponse\<close> carries the body, the content type,
  the optional \<open>Content-Encoding\<close> and the \<open>X-Accel-Redirect\<close> header.
\<close>

datatype response =
    HttpResponseRedirect pystr
  | Rendered pystr nat
  | CasLogin pystr pystr
  | FileResponse pystr
  | HttpResponse pystr pystr "pystr option" pystr

text \<open>Calls to the collaborators that the claims speak about, in the order they happen.\<close>

datatype event =
    EvHasPerm "version option"
  | EvCasLogin
  | EvStoragePath
  | EvStorageUrl pystr
  | EvServe pystr

text \<open>The mutable part: the two settings the view reads or writes, and the call trace.\<close>

record world =
  CAS_SERVER_URL :: pystr
  PYTHON_MEDIA :: bool
  trace :: "event list"

text \<open>
  The collaborators, read-only: the tables in primary-key order, the translations and
  versions of a project, the \<open>Project\<close> methods \<open>get_default_version\<close> and
  \<open>get_storage_path(type_='html', version_slug=..., include_file=False)\<close>, the permission
  backend behind \<open>request.user.has_perm(VIEW_DOCS_PERMISSION, version)\<close>, the storage
  backend (\<open>path('')\<close>, \<open>url\<close>, and \<open>serve\<close> on it), and the library functions
  \<open>urlparse(...).path\<close>, \<open>urlparse(...).query\<close> and \<open>mimetypes.guess_type\<close>.
\<close>

record env =
  projects :: "project list"
  relationships :: "relationship list"
  translations_of :: "project \<Rightarrow> project list"
  versions_for_project :: "project \<Rightarrow> version list"
  get_default_version :: "project \<Rightarrow> pystr"
  get_storage_path :: "project \<Rightarrow> pystr option \<Rightarrow> pystr"
  has_perm :: "request \<Rightarrow> version option \<Rightarrow> bool"
  storage_path_root :: pystr
  storage_url :: "pystr \<Rightarrow> pystr"
  static_serve :: "pystr \<Rightarrow> pystr \<Rightarrow> error + response"
  urlparse_path :: "pystr \<Rightarrow> pystr"
  urlparse_query :: "pystr \<Rightarrow> pystr"
  guess_type :: "pystr \<Rightarrow> pystr option \<times> pystr option"

type_synonym result = "(error + response) \<times> world"

section \<open>Query sets\<close>

text \<open>\<open>.first()\<close> of a query set: the first row, or \<open>None\<close>.\<close>

fun first :: "'a list \<Rightarrow> 'a option" where
  "first [] = None"
| "first (x # xs) = Some x"

text \<open>
  \<open>.get(...)\<close> of a query set, as \<open>get_object_or_404\<close> uses it: no row is
  \<open>DoesNotExist\<close>, turned into \<open>Http404\<close>; more than one row is
  \<open>MultipleObjectsReturned\<close>, which is not caught.
\<close>

fun get_object_or_404 :: "'a list \<Rightarrow> error + 'a" where
  "get_object_or_404 [] = Inl (Http404 (lit ''No Project matches the given query.''))"
| "get_object_or_404 [x] = Inr x"
| "get_object_or_404 (x # y # xs) = Inl MultipleObjectsReturned"

section \<open>The views\<close>

text \<open>\<open>_serve_401\<close>: the rendered page \<open>401.html\<close> with status code 401.\<close>

definition serve_401 :: "request \<Rightarrow> project \<Rightarrow> response" where
  "serve_401 request project = Rendered (lit ''401.html'') 401"

text \<open>
  Modelled from the spec: \<open>readthedocs.core.resolver.resolve\<close> is not among the source
  files. The spec has it build the project's canonical URL, the default-language and
  default-version root (\<open>/en/latest/\<close> in its example, and no language or version
  segment for a single-version project), followed by the file name and by the query
  string handed to it.
\<close>

definition resolve :: "env \<Rightarrow> project \<Rightarrow> pystr \<Rightarrow> pystr \<Rightarrow> pystr" where
  "resolve e project filename query_params =
     (if single_version project then lit ''/''
      else lit ''/'' @ language project @ lit ''/'' @ get_default_version e project @ lit ''/'')
     @ filename
     @ (if query_params = [] then [] else lit ''?'' @ query_params)"

subsection \<open>The decorators\<close>

text \<open>
  \<open>map_subproject_slug\<close>: when no subproject is given and the slug is not empty, the
  relationships of the parent are searched by alias first and by the child's slug second.
  The decorated view receives the remaining keyword arguments as \<open>kw\<close>.
\<close>

definition map_subproject_slug ::
  "env \<Rightarrow> (world \<Rightarrow> request \<Rightarrow> project \<Rightarrow> project option \<Rightarrow> 'k \<Rightarrow> result)
   \<Rightarrow> world \<Rightarrow> request \<Rightarrow> project \<Rightarrow> project option \<times> pystr option \<times> 'k \<Rightarrow> result" where
  "map_subproject_slug e view_func w request project args =
     (case args of (subproject, subproject_slug, kw) \<Rightarrow>
        if subproject = None \<and> truthy subproject_slug then
          (case first (filter (\<lambda>r. parent_id r = pk project \<and> rel_alias r = subproject_slug)
                         (relationships e)) of
             Some rel \<Rightarrow> view_func w request project (Some (child rel)) kw
           | None \<Rightarrow>
               (case first (filter (\<lambda>r. parent_id r = pk project
                                        \<and> Some (slug (child r)) = subproject_slug)
                              (relationships e)) of
                  Some rel \<Rightarrow> view_func w request project (Some (child rel)) kw
                | None \<Rightarrow> (Inl (Http404 (lit ''Invalid subproject slug'')), w)))
        else view_func w request project subproject kw)"

text \<open>
  \<open>map_project_slug\<close>: when no project is given, it is looked up by the slug of the URL,
  or by the slug of the request's host when the URL has none.
\<close>

definition map_project_slug ::
  "env \<Rightarrow> (world \<Rightarrow> request \<Rightarrow> project \<Rightarrow> 'k \<Rightarrow> result)
   \<Rightarrow> world \<Rightarrow> request \<Rightarrow> project option \<Rightarrow> pystr option \<Rightarrow> 'k \<Rightarrow> result" where
  "map_project_slug e view_func w request project project_slug kw =
     (case project of
        Some p \<Rightarrow> view_func w request p kw
      | None \<Rightarrow>
          (let project_slug = (case project_slug of
                                 None \<Rightarrow> host_project_slug request
                               | Some s \<Rightarrow> if s = [] then host_project_slug request else s)
           in case filter (\<lambda>p. slug p = project_slug) (projects e) of
                [] \<Rightarrow> (Inl (Http404 (lit ''Project does not exist.'')), w)
              | [p] \<Rightarrow> view_func w request p kw
              | _ \<Rightarrow> (Inl MultipleObjectsReturned, w)))"

subsection \<open>Redirects\<close>

text \<open>\<open>subproject or project\<close>: the subproject when there is one.\<close>

definition current_project_of :: "project \<Rightarrow> project option \<Rightarrow> project" where
  "current_project_of project subproject = (case subproject of Some sp \<Rightarrow> sp | None \<Rightarrow> project)"

definition redirect_page_with_filename_body ::
  "env \<Rightarrow> world \<Rightarrow> request \<Rightarrow> project \<Rightarrow> project option \<Rightarrow> pystr \<Rightarrow> result" where
  "redirect_page_with_filename_body e w request project subproject filename =
     (Inr (HttpResponseRedirect
             (resolve e (current_project_of project subproject) filename
                (urlparse_query e (full_path request)))), w)"

definition redirect_page_with_filename ::
  "env \<Rightarrow> world \<Rightarrow> request \<Rightarrow> project option \<Rightarrow> pystr option
   \<Rightarrow> project option \<times> pystr option \<times> pystr \<Rightarrow> result" where
  "redirect_page_with_filename e =
     map_project_slug e (map_subproject_slug e (redirect_page_with_filename_body e))"

definition redirect_project_slug_body ::
  "env \<Rightarrow> world \<Rightarrow> request \<Rightarrow> project \<Rightarrow> project option \<Rightarrow> unit \<Rightarrow> result" where
  "redirect_project_slug_body e w request project subproject u =
     (Inr (HttpResponseRedirect
             (resolve e (current_project_of project subproject) []
                (urlparse_query e (full_path request)))), w)"

definition redirect_project_slug ::
  "env \<Rightarrow> world \<Rightarrow> request \<Rightarrow> project option \<Rightarrow> pystr option
   \<Rightarrow> project option \<times> pystr option \<times> unit \<Rightarrow> result" where
  "redirect_project_slug e =
     map_project_slug e (map_subproject_slug e (redirect_project_slug_body e))"

subsection \<open>Serving documentation\<close>

text \<open>
  Lines 172 to 176 of \<open>serve_docs\<close>: a single-version project addressed with a language
  and a version has both joined into the file name, and both cleared.
\<close>

definition fold_single_version ::
  "project \<Rightarrow> pystr option \<Rightarrow> pystr option \<Rightarrow> pystr
   \<Rightarrow> pystr option \<times> pystr option \<times> pystr" where
  "fold_single_version current_project lang_slug version_slug filename =
     (if single_version current_project then
        (case (lang_slug, version_slug) of
           (Some l, Some v) \<Rightarrow>
             if l \<noteq> [] \<and> v \<noteq> [] then (None, None, os_path_join l [v, filename])
             else (lang_slug, version_slug, filename)
         | _ \<Rightarrow> (lang_slug, version_slug, filename))
      else (lang_slug, version_slug, filename))"

text \<open>Lines 178 to 184: the project itself, or its translation in the language asked for.\<close>

definition select_final_project :: "env \<Rightarrow> project \<Rightarrow> pystr option \<Rightarrow> error + project" where
  "select_final_project e current_project lang_slug =
     (if \<not> truthy lang_slug \<or> lang_slug = Some (language current_project)
      then Inr current_project
      else get_object_or_404
             (filter (\<lambda>t. Some (language t) = lang_slug) (translations_of e current_project)))"

text \<open>Lines 198 to 200: a single-version final project is served at its default version.\<close>

definition force_default_version :: "env \<Rightarrow> project \<Rightarrow> pystr option \<Rightarrow> pystr option" where
  "force_default_version e final_project version_slug =
     (if single_version final_project then Some (get_default_version e final_project)
      else version_slug)"

text \<open>Lines 202 to 205: the first version of the project with that slug, or \<open>None\<close>.\<close>

definition locate_version :: "env \<Rightarrow> project \<Rightarrow> pystr option \<Rightarrow> version option" where
  "locate_version e final_project vslug =
     first (filter (\<lambda>v. Some (v_slug v) = vslug) (versions_for_project e final_project))"

text \<open>
  Lines 209 to 234: the permission is asked for the located version. An anonymous user
  without it gets the CAS login, with the server URL set from the \<open>ticket=\<close> test on the
  absolute URI; in every other case the view goes on (the result is \<open>None\<close>).
\<close>

definition access_gate :: "env \<Rightarrow> world \<Rightarrow> request \<Rightarrow> version option \<Rightarrow> response option \<times> world" where
  "access_gate e w request version =
     (let w1 = w\<lparr>trace := trace w @ [EvHasPerm version]\<rparr>
      in if \<not> has_perm e request version then
           (if \<not> is_authenticated request then
              (let url = (if contains (absolute_uri request) (lit ''ticket='')
                          then lit ''http://web:8000/cas/''
                          else lit ''http://dev.readthedocs.io/cas/'');
                   w2 = w1\<lparr>CAS_SERVER_URL := url, trace := trace w1 @ [EvCasLogin]\<rparr>
               in (Some (CasLogin url (absolute_uri request)), w2))
            else (None, w1))
         else (None, w1))"

text \<open>
  Lines 237 to 248: the storage path of the version, a separator and the file name;
  \<open>index.html\<close> is appended when the result ends in a separator. The path holds a
  separator, so it is never empty and its last character exists.
\<close>

definition storage_path_of :: "env \<Rightarrow> project \<Rightarrow> pystr option \<Rightarrow> pystr \<Rightarrow> pystr" where
  "storage_path_of e final_project vslug filename =
     (let path = get_storage_path e final_project vslug @ lit ''/'' @ filename
      in if last path = 47 then path @ lit ''index.html'' else path)"

text \<open>\<open>_serve_docs_nginx\<close>: the response that makes nginx fetch the path.\<close>

definition serve_docs_nginx :: "env \<Rightarrow> request \<Rightarrow> project \<Rightarrow> pystr \<Rightarrow> error + response" where
  "serve_docs_nginx e request final_project path =
     (let content_type = (case fst (guess_type e path) of
                            None \<Rightarrow> lit ''application/octet-stream''
                          | Some t \<Rightarrow> (if t = [] then lit ''application/octet-stream'' else t));
          encoding = snd (guess_type e path)
      in (case iri_to_uri path of
            None \<Rightarrow> Inl UnicodeEncodeError
          | Some x_accel_redirect \<Rightarrow>
              Inr (HttpResponse (lit ''Serving internal path: '' @ path) content_type
                     (if truthy encoding then encoding else None) x_accel_redirect)))"

text \<open>
  The path handed to \<open>_serve_docs_nginx\<close> (lines 263 to 282): the path and the query of
  the storage URL around a question mark, stripped of separators at both ends, behind
  \<open>/proxito/\<close>.
\<close>

definition nginx_path :: "env \<Rightarrow> pystr \<Rightarrow> pystr" where
  "nginx_path e url =
     lit ''/proxito/'' @ strip 47 (urlparse_path e url @ lit ''?'' @ urlparse_query e url)"

text \<open>Lines 250 to 282: served by Django from the storage root, or handed to nginx.\<close>

definition storage_dispatch :: "env \<Rightarrow> world \<Rightarrow> request \<Rightarrow> project \<Rightarrow> pystr \<Rightarrow> result" where
  "storage_dispatch e w request final_project path =
     (if PYTHON_MEDIA w then
        (static_serve e path (storage_path_root e),
         w\<lparr>trace := trace w @ [EvStoragePath, EvServe path]\<rparr>)
      else
        (serve_docs_nginx e request final_project (nginx_path e (storage_url e path)),
         w\<lparr>trace := trace w @ [EvStorageUrl path]\<rparr>))"

text \<open>Lines 202 to 282, for the final project, the version slug and the file name.\<close>

definition serve_version ::
  "env \<Rightarrow> world \<Rightarrow> request \<Rightarrow> project \<Rightarrow> pystr option \<Rightarrow> pystr \<Rightarrow> result" where
  "serve_version e w request final_project vslug filename =
     (let version = locate_version e final_project vslug
      in case access_gate e w request version of
           (Some response, w1) \<Rightarrow> (Inr response, w1)
         | (None, w1) \<Rightarrow>
             storage_dispatch e w1 request final_project
               (storage_path_of e final_project vslug filename))"

text \<open>The body of \<open>serve_docs\<close>, and the view with its two decorators.\<close>

definition serve_docs_body ::
  "env \<Rightarrow> world \<Rightarrow> request \<Rightarrow> project \<Rightarrow> project option
   \<Rightarrow> pystr option \<times> pystr option \<times> pystr \<Rightarrow> result" where
  "serve_docs_body e w request project subproject kw =
     (case kw of (lang_slug, version_slug, filename) \<Rightarrow>
        let current_project = current_project_of project subproject
        in if lang_slug = None \<and> version_slug = None \<and> filename = []
              \<and> \<not> single_version current_project
           then redirect_project_slug e w request (Some current_project) None (None, None, ())
           else if (lang_slug = None \<or> version_slug = None) \<and> \<not> single_version current_project
           then (Inl (Http404 (lit ''Invalid URL for project with versions'')), w)
           else
             (case fold_single_version current_project lang_slug version_slug filename of
                (lang_slug, version_slug, filename) \<Rightarrow>
                  (case select_final_project e current_project lang_slug of
                     Inl err \<Rightarrow> (Inl err, w)
                   | Inr final_project \<Rightarrow>
                       serve_version e w request final_project
                         (force_default_version e final_project version_slug) filename)))"

definition serve_docs ::
  "env \<Rightarrow> world \<Rightarrow> request \<Rightarrow> project option \<Rightarrow> pystr option
   \<Rightarrow> project option \<times> pystr option \<times> pystr option \<times> pystr option \<times> pystr \<Rightarrow> result" where
  "serve_docs e = map_project_slug e (map_subproject_slug e (serve_docs_body e))"

section \<open>Notions the properties are stated with\<close>

text \<open>The two filters of \<open>map_subproject_slug\<close>, and the first row of a table that passes one.\<close>

definition alias_match :: "project \<Rightarrow> pystr \<Rightarrow> relationship \<Rightarrow> bool" where
  "alias_match parent s r \<longleftrightarrow> parent_id r = pk parent \<and> rel_alias r = Some s"

definition child_slug_match :: "project \<Rightarrow> pystr \<Rightarrow> relationship \<Rightarrow> bool" where
  "child_slug_match parent s r \<longleftrightarrow> parent_id r = pk parent \<and> slug (child r) = s"

definition first_match :: "(relationship \<Rightarrow> bool) \<Rightarrow> relationship list \<Rightarrow> relationship \<Rightarrow> bool" where
  "first_match P rels r \<longleftrightarrow> (\<exists>ys zs. rels = ys @ r # zs \<and> (\<forall>y\<in>set ys. \<not> P y) \<and> P r)"

text \<open>
  Decoding a URI back: \<open>%XX\<close> with two hexadecimal digits becomes the byte, every other
  character stands for itself, and the bytes are read as UTF-8, strictly: bytes that are
  not UTF-8 give \<open>None\<close>. (\<open>urllib.parse.unquote\<close> percent-decodes the same way and
  puts U+FFFD where the bytes are not UTF-8; on well-formed bytes, so on everything
  \<open>iri_to_uri\<close> writes, the two agree.)
\<close>

definition is_hex :: "nat \<Rightarrow> bool" where
  "is_hex c \<longleftrightarrow> (48 \<le> c \<and> c \<le> 57) \<or> (65 \<le> c \<and> c \<le> 70) \<or> (97 \<le> c \<and> c \<le> 102)"

definition hexval :: "nat \<Rightarrow> nat" where
  "hexval c = (if c \<le> 57 then c - 48 else if c \<le> 70 then c - 55 else c - 87)"

fun starts_hex2 :: "pystr \<Rightarrow> bool" where
  "starts_hex2 (h # l # rest) = (is_hex h \<and> is_hex l)"
| "starts_hex2 s = False"

fun unquote_to_bytes :: "pystr \<Rightarrow> nat list" where
  "unquote_to_bytes (p # h # l # rest) =
     (if p = 37 \<and> is_hex h \<and> is_hex l then (16 * hexval h + hexval l) # unquote_to_bytes rest
      else p # unquote_to_bytes (h # l # rest))"
| "unquote_to_bytes s = s"

definition is_cont :: "nat \<Rightarrow> bool" where
  "is_cont b \<longleftrightarrow> 0x80 \<le> b \<and> b < 0xC0"

fun utf8_decode :: "nat list \<Rightarrow> pystr option" where
  "utf8_decode [] = Some []"
| "utf8_decode (b0 # bs) =
     (if b0 < 0x80 then map_option ((#) b0) (utf8_decode bs)
      else if 0xC2 \<le> b0 \<and> b0 < 0xE0 then
        (case bs of
           b1 # r \<Rightarrow>
             if is_cont b1
             then map_option ((#) ((b0 - 0xC0) * 64 + (b1 - 0x80))) (utf8_decode r)
             else None
         | _ \<Rightarrow> None)
      else if 0xE0 \<le> b0 \<and> b0 < 0xF0 then
        (case bs of
           b1 # b2 # r \<Rightarrow>
             (let c = (b0 - 0xE0) * 4096 + (b1 - 0x80) * 64 + (b2 - 0x80)
              in if is_cont b1 \<and> is_cont b2 \<and> 0x800 \<le> c \<and> \<not> (0xD800 \<le> c \<and> c < 0xE000)
                 then map_option ((#) c) (utf8_decode r)
                 else None)
         | _ \<Rightarrow> None)
      else if 0xF0 \<le> b0 \<and> b0 < 0xF5 then
        (case bs of
           b1 # b2 # b3 # r \<Rightarrow>
             (let c = (b0 - 0xF0) * 262144 + (b1 - 0x80) * 4096 + (b2 - 0x80) * 64 + (b3 - 0x80)
              in if is_cont b1 \<and> is_cont b2 \<and> is_cont b3 \<and> 0x10000 \<le> c \<and> c < 0x110000
                 then map_option ((#) c) (utf8_decode r)
                 else None)
         | _ \<Rightarrow> None)
      else None)"

definition uri_decode :: "pystr \<Rightarrow> pystr option" where
  "uri_decode s = utf8_decode (unquote_to_bytes s)"

text \<open>No percent sign of the string is followed by two hexadecimal digits.\<close>

fun no_pct_escape :: "pystr \<Rightarrow> bool" where
  "no_pct_escape [] = True"
| "no_pct_escape (c # t) = ((c = 37 \<longrightarrow> \<not> starts_hex2 t) \<and> no_pct_escape t)"

text \<open>A code point that UTF-8 can encode: below 0x110000 and no surrogate.\<close>

definition is_scalar :: "nat \<Rightarrow> bool" where
  "is_scalar c \<longleftrightarrow> c < 0xD800 \<or> (0xE000 \<le> c \<and> c < 0x110000)"




section \<open>A small installation\<close>

text \<open>
  Project \<open>acme\<close> has versions; \<open>solo\<close> is single-version and has a French translation
  \<open>solo-fr\<close> that has versions. Under \<open>acme\<close>, the project \<open>docs\<close> is a plain
  subproject and the project \<open>api\<close> is a subproject under the alias \<open>docs\<close>. Only
  \<open>acme\<close> has a version, \<open>latest\<close>. Nobody may view anything.
\<close>

definition acme :: project where
  "acme = \<lparr>pk = 1, slug = lit ''acme'', language = lit ''en'', single_version = False\<rparr>"

definition solo :: project where
  "solo = \<lparr>pk = 2, slug = lit ''solo'', language = lit ''en'', single_version = True\<rparr>"

definition solo_fr :: project where
  "solo_fr = \<lparr>pk = 3, slug = lit ''solo-fr'', language = lit ''fr'', single_version = False\<rparr>"

definition api :: project where
  "api = \<lparr>pk = 4, slug = lit ''api'', language = lit ''en'', single_version = False\<rparr>"

definition docs :: project where
  "docs = \<lparr>pk = 5, slug = lit ''docs'', language = lit ''en'', single_version = False\<rparr>"

text \<open>
  The URL functions of the installation follow \<open>urlparse\<close> on a relative URL and on an
  \<open>http\<close> or \<open>https\<close> URL without parameters: scheme and host go, the fragment goes,
  and the first question mark parts path and query. Its \<open>guess_type\<close> knows no type: a
  path handed to nginx holds a question mark, and \<open>mimetypes\<close> takes what follows the
  last dot, question mark included, for the extension.
\<close>

definition after_origin :: "pystr \<Rightarrow> pystr" where
  "after_origin u =
     (if startswith u (lit ''http://'')
      then dropWhile (\<lambda>c. c \<noteq> 47 \<and> c \<noteq> 63 \<and> c \<noteq> 35) (drop 7 u)
      else if startswith u (lit ''https://'')
      then dropWhile (\<lambda>c. c \<noteq> 47 \<and> c \<noteq> 63 \<and> c \<noteq> 35) (drop 8 u)
      else u)"

definition demo_env :: env where
  "demo_env =
     \<lparr>projects = [acme, solo, solo_fr, api, docs],
      relationships = [\<lparr>parent_id = 1, child = docs, rel_alias = None\<rparr>,
                       \<lparr>parent_id = 1, child = api, rel_alias = Some (lit ''docs'')\<rparr>],
      translations_of = (\<lambda>p. if pk p = 2 then [solo_fr] else []),
      versions_for_project = (\<lambda>p. if pk p = 1 then [\<lparr>version_pk = 1, v_slug = lit ''latest''\<rparr>] else []),
      get_default_version = (\<lambda>p. lit ''latest''),
      get_storage_path = (\<lambda>p v. lit ''html/'' @ slug p @ lit ''/''
                                   @ (case v of None \<Rightarrow> lit ''None'' | Some s \<Rightarrow> s)),
      has_perm = (\<lambda>r v. False),
      storage_path_root = lit ''/srv/media'',
      storage_url = (\<lambda>p. lit ''/media/'' @ p),
      static_serve = (\<lambda>p root. Inr (FileResponse p)),
      urlparse_path = (\<lambda>u. takeWhile (\<lambda>c. c \<noteq> 63) (takeWhile (\<lambda>c. c \<noteq> 35) (after_origin u))),
      urlparse_query = (\<lambda>u. drop 1 (dropWhile (\<lambda>c. c \<noteq> 63)
                                     (takeWhile (\<lambda>c. c \<noteq> 35) (after_origin u)))),
      guess_type = (\<lambda>p. (None, None))\<rparr>"

definition demo_world :: world where
  "demo_world = \<lparr>CAS_SERVER_URL = [], PYTHON_MEDIA = True, trace = []\<rparr>"

definition anonymous_request :: request where
  "anonymous_request =
     \<lparr>is_authenticated = False, full_path = lit ''/?q=1'',
      absolute_uri = lit ''http://acme.dev.readthedocs.io/?q=1'',
      host_project_slug = lit ''acme''\<rparr>"

definition member_request :: request where
  "member_request = anonymous_request\<lparr>is_authenticated := True\<rparr>"

section \<open>Properties\<close>

subsection \<open>Incomplete paths and the root redirect\<close>

text \<open>
  C7. For a project that is not single-version, a request in which exactly one of
  \<open>lang_slug\<close> and \<open>version_slug\<close> is absent, or in which the file name is not empty
  while one of the two is absent, is answered with \<open>Http404\<close>; the world comes back
  unchanged, so the trace gained no call of the permission check, whatever the
  permission backend of the environment is.
\<close>

theorem serve_docs_incomplete_path_rejected:
  assumes "\<not> single_version (current_project_of project subproject)"
    and "(lang_slug = None) \<noteq> (version_slug = None)
         \<or> (filename \<noteq> [] \<and> (lang_slug = None \<or> version_slug = None))"
  shows "serve_docs_body e w request project subproject (lang_slug, version_slug, filename)
           = (Inl (Http404 (lit ''Invalid URL for project with versions'')), w)
         \<and> trace (snd (serve_docs_body e w request project subproject
                          (lang_slug, version_slug, filename))) = trace w"
  using assms by (auto simp: serve_docs_body_def)

theorem serve_docs_incomplete_path_rejected_witness:
  "\<not> single_version (current_project_of acme None)
   \<and> serve_docs_body demo_env demo_world anonymous_request acme None
        (Some (lit ''en''), None, lit ''index.html'')
       = (Inl (Http404 (lit ''Invalid URL for project with versions'')), demo_world)
   \<and> trace (snd (serve_docs_body demo_env demo_world anonymous_request acme None
                    (Some (lit ''en''), None, lit ''index.html''))) = []"
proof -
  have h: "\<not> single_version (current_project_of acme None)"
    by (simp add: current_project_of_def acme_def)
  have g: "(Some (lit ''en'') = None) \<noteq> ((None :: pystr option) = None)
           \<or> (lit ''index.html'' \<noteq> [] \<and> (Some (lit ''en'') = None \<or> (None :: pystr option) = None))"
    by simp
  show ?thesis
    using h serve_docs_incomplete_path_rejected [OF h g, of demo_env demo_world anonymous_request]
    by (simp add: demo_world_def)
qed

lemma redirect_project_slug_given:
  "redirect_project_slug e w request (Some p) None (None, None, ())
   = (Inr (HttpResponseRedirect (resolve e p [] (urlparse_query e (full_path request)))), w)"
  by (simp add: redirect_project_slug_def map_project_slug_def map_subproject_slug_def
      redirect_project_slug_body_def current_project_of_def)

text \<open>
  C6. For a project that is not single-version, a request without language, without
  version and with an empty file name is answered with a redirect to the root of the
  default language and default version of the project, followed by a question mark and
  the query of the request's full path when that query is not empty.
\<close>

theorem serve_docs_root_redirect:
  assumes "\<not> single_version (current_project_of project subproject)"
  shows "serve_docs_body e w request project subproject (None, None, [])
         = (Inr (HttpResponseRedirect
              (lit ''/'' @ language (current_project_of project subproject)
               @ lit ''/'' @ get_default_version e (current_project_of project subproject)
               @ lit ''/''
               @ (if urlparse_query e (full_path request) = [] then []
                  else lit ''?'' @ urlparse_query e (full_path request)))), w)"
  using assms by (simp add: serve_docs_body_def redirect_project_slug_given resolve_def Let_def)

theorem serve_docs_root_redirect_witness:
  "\<not> single_version (current_project_of acme None)
   \<and> serve_docs_body demo_env demo_world anonymous_request acme None (None, None, [])
       = (Inr (HttpResponseRedirect (lit ''/en/latest/?q=1'')), demo_world)"
proof -
  have h: "\<not> single_version (current_project_of acme None)"
    by (simp add: current_project_of_def acme_def)
  show ?thesis
    using h serve_docs_root_redirect [OF h, of demo_env demo_world anonymous_request]
    by (simp add: current_project_of_def acme_def demo_env_def anonymous_request_def
        after_origin_def lit_def)
qed

subsection \<open>Subproject resolution\<close>

lemma first_filter_None: "first (filter P xs) = None \<longleftrightarrow> (\<forall>x\<in>set xs. \<not> P x)"
  by (induction xs) auto

lemma first_filter_Some:
  "first (filter P xs) = Some r \<longleftrightarrow>
     (\<exists>ys zs. xs = ys @ r # zs \<and> (\<forall>y\<in>set ys. \<not> P y) \<and> P r)"
proof (induction xs)
  case Nil
  then show ?case by simp
next
  case (Cons x xs)
  show ?case
  proof (cases "P x")
    case True
    have "(\<exists>ys zs. x # xs = ys @ r # zs \<and> (\<forall>y\<in>set ys. \<not> P y) \<and> P r) \<longleftrightarrow> x = r"
    proof
      assume "\<exists>ys zs. x # xs = ys @ r # zs \<and> (\<forall>y\<in>set ys. \<not> P y) \<and> P r"
      then obtain ys zs where h: "x # xs = ys @ r # zs" "\<forall>y\<in>set ys. \<not> P y" by blast
      show "x = r"
      proof (cases ys)
        case Nil
        with h show ?thesis by simp
      next
        case (Cons y ys')
        with h True show ?thesis by auto
      qed
    next
      assume "x = r"
      with True have "x # xs = [] @ r # xs \<and> (\<forall>y\<in>set []. \<not> P y) \<and> P r" by simp
      then show "\<exists>ys zs. x # xs = ys @ r # zs \<and> (\<forall>y\<in>set ys. \<not> P y) \<and> P r" by blast
    qed
    with True show ?thesis by simp
  next
    case False
    have "(\<exists>ys zs. x # xs = ys @ r # zs \<and> (\<forall>y\<in>set ys. \<not> P y) \<and> P r)
          \<longleftrightarrow> (\<exists>ys zs. xs = ys @ r # zs \<and> (\<forall>y\<in>set ys. \<not> P y) \<and> P r)"
    proof
      assume "\<exists>ys zs. x # xs = ys @ r # zs \<and> (\<forall>y\<in>set ys. \<not> P y) \<and> P r"
      then obtain ys zs where h: "x # xs = ys @ r # zs" "\<forall>y\<in>set ys. \<not> P y" "P r" by blast
      show "\<exists>ys zs. xs = ys @ r # zs \<and> (\<forall>y\<in>set ys. \<not> P y) \<and> P r"
      proof (cases ys)
        case Nil
        with h False show ?thesis by simp
      next
        case (Cons y ys')
        with h have "xs = ys' @ r # zs \<and> (\<forall>y\<in>set ys'. \<not> P y) \<and> P r" by simp
        then show ?thesis by blast
      qed
    next
      assume "\<exists>ys zs. xs = ys @ r # zs \<and> (\<forall>y\<in>set ys. \<not> P y) \<and> P r"
      then obtain ys zs where h: "xs = ys @ r # zs" "\<forall>y\<in>set ys. \<not> P y" "P r" by blast
      with False have "x # xs = (x # ys) @ r # zs \<and> (\<forall>y\<in>set (x # ys). \<not> P y) \<and> P r" by simp
      then show "\<exists>ys zs. x # xs = ys @ r # zs \<and> (\<forall>y\<in>set ys. \<not> P y) \<and> P r" by blast
    qed
    with False Cons.IH show ?thesis by simp
  qed
qed

lemma first_match_iff: "first_match P rels r \<longleftrightarrow> first (filter P rels) = Some r"
  by (simp add: first_match_def first_filter_Some)

text \<open>
  C5. With no subproject given and a slug that is not empty, the subproject is the child
  of the first relationship of the parent whose alias is the slug; it is so whatever
  relationships match by the child's slug. When no alias matches, it is the child of the
  first relationship of the parent whose child has the slug. When neither matches, the
  answer is \<open>Http404\<close> and the view is not called.
\<close>

theorem map_subproject_slug_alias_first:
  assumes "s \<noteq> []"
  shows "(\<forall>r. first_match (alias_match parent s) (relationships e) r \<longrightarrow>
            map_subproject_slug e view_func w request parent (None, Some s, kw)
            = view_func w request parent (Some (child r)) kw)
       \<and> (\<forall>r. (\<forall>a\<in>set (relationships e). \<not> alias_match parent s a)
              \<and> first_match (child_slug_match parent s) (relationships e) r \<longrightarrow>
            map_subproject_slug e view_func w request parent (None, Some s, kw)
            = view_func w request parent (Some (child r)) kw)
       \<and> ((\<forall>a\<in>set (relationships e). \<not> alias_match parent s a \<and> \<not> child_slug_match parent s a) \<longrightarrow>
            map_subproject_slug e view_func w request parent (None, Some s, kw)
            = (Inl (Http404 (lit ''Invalid subproject slug'')), w))"
proof (intro conjI allI impI)
  fix r assume "first_match (alias_match parent s) (relationships e) r"
  then have "first (filter (alias_match parent s) (relationships e)) = Some r"
    by (simp add: first_match_iff)
  then have "first (filter (\<lambda>r. parent_id r = pk parent \<and> rel_alias r = Some s) (relationships e)) = Some r"
    by (simp add: alias_match_def[abs_def])
  with assms show "map_subproject_slug e view_func w request parent (None, Some s, kw)
            = view_func w request parent (Some (child r)) kw"
    by (simp add: map_subproject_slug_def)
next
  fix r assume h: "(\<forall>a\<in>set (relationships e). \<not> alias_match parent s a)
              \<and> first_match (child_slug_match parent s) (relationships e) r"
  then have "first (filter (alias_match parent s) (relationships e)) = None"
    by (simp add: first_filter_None)
  then have a: "first (filter (\<lambda>r. parent_id r = pk parent \<and> rel_alias r = Some s) (relationships e)) = None"
    by (simp add: alias_match_def[abs_def])
  from h have "first (filter (child_slug_match parent s) (relationships e)) = Some r"
    by (simp add: first_match_iff)
  then have b: "first (filter (\<lambda>r. parent_id r = pk parent \<and> slug (child r) = s) (relationships e)) = Some r"
    by (simp add: child_slug_match_def[abs_def])
  from assms a b show "map_subproject_slug e view_func w request parent (None, Some s, kw)
            = view_func w request parent (Some (child r)) kw"
    by (simp add: map_subproject_slug_def)
next
  assume h: "\<forall>a\<in>set (relationships e). \<not> alias_match parent s a \<and> \<not> child_slug_match parent s a"
  then have "first (filter (alias_match parent s) (relationships e)) = None"
    by (simp add: first_filter_None)
  then have a: "first (filter (\<lambda>r. parent_id r = pk parent \<and> rel_alias r = Some s) (relationships e)) = None"
    by (simp add: alias_match_def[abs_def])
  from h have "first (filter (child_slug_match parent s) (relationships e)) = None"
    by (simp add: first_filter_None)
  then have b: "first (filter (\<lambda>r. parent_id r = pk parent \<and> slug (child r) = s) (relationships e)) = None"
    by (simp add: child_slug_match_def[abs_def])
  from assms a b show "map_subproject_slug e view_func w request parent (None, Some s, kw)
            = (Inl (Http404 (lit ''Invalid subproject slug'')), w)"
    by (simp add: map_subproject_slug_def)
qed

text \<open>
  In the small installation the plain subproject \<open>docs\<close> comes first in the table and
  matches by slug, and still the alias \<open>docs\<close> of \<open>api\<close> wins; the slug \<open>nope\<close> matches
  nothing.
\<close>

theorem map_subproject_slug_alias_first_witness:
  "lit ''docs'' \<noteq> []
   \<and> child_slug_match acme (lit ''docs'') \<lparr>parent_id = 1, child = docs, rel_alias = None\<rparr>
   \<and> map_subproject_slug demo_env (serve_docs_body demo_env) demo_world anonymous_request acme
        (None, Some (lit ''docs''), (None, None, []))
       = serve_docs_body demo_env demo_world anonymous_request acme (Some api) (None, None, [])
   \<and> map_subproject_slug demo_env (serve_docs_body demo_env) demo_world anonymous_request acme
        (None, Some (lit ''nope''), (None, None, []))
       = (Inl (Http404 (lit ''Invalid subproject slug'')), demo_world)"
proof -
  have h: "lit ''docs'' \<noteq> []" by (simp add: lit_def)
  have h': "lit ''nope'' \<noteq> []" by (simp add: lit_def)
  have m: "first_match (alias_match acme (lit ''docs'')) (relationships demo_env)
             \<lparr>parent_id = 1, child = api, rel_alias = Some (lit ''docs'')\<rparr>"
    by (simp add: first_match_iff alias_match_def demo_env_def acme_def)
  have c: "child_slug_match acme (lit ''docs'') \<lparr>parent_id = 1, child = docs, rel_alias = None\<rparr>"
    by (simp add: child_slug_match_def acme_def docs_def)
  have n: "\<forall>a\<in>set (relationships demo_env).
             \<not> alias_match acme (lit ''nope'') a \<and> \<not> child_slug_match acme (lit ''nope'') a"
    by (simp add: alias_match_def child_slug_match_def demo_env_def acme_def docs_def api_def lit_def)
  show ?thesis
    using h c m n
      map_subproject_slug_alias_first [OF h, of acme demo_env "serve_docs_body demo_env"
        demo_world anonymous_request "(None, None, [])"]
      map_subproject_slug_alias_first [OF h', of acme demo_env "serve_docs_body demo_env"
        demo_world anonymous_request "(None, None, [])"]
    by auto
qed

subsection \<open>The login challenge\<close>















subsection \<open>The directory index\<close>

lemma join_step_app: "b \<noteq> [] \<Longrightarrow> join_step p (b @ c) = join_step p b @ c"
  by (cases b) (auto simp: join_step_def lit_def)

lemma last_join_step: "b \<noteq> [] \<Longrightarrow> last (join_step p b) = last b"
  by (auto simp: join_step_def lit_def)

lemma storage_path_of_slash:
  "storage_path_of e p v (f @ lit ''/'')
   = get_storage_path e p v @ lit ''/'' @ f @ lit ''/index.html''"
  by (simp add: storage_path_of_def Let_def lit_def)

lemma storage_path_of_index:
  "storage_path_of e p v (f @ lit ''/index.html'')
   = get_storage_path e p v @ lit ''/'' @ f @ lit ''/index.html''"
  by (simp add: storage_path_of_def Let_def lit_def)

lemma storage_path_of_plain:
  "f \<noteq> [] \<Longrightarrow> last f \<noteq> 47 \<Longrightarrow> storage_path_of e p v f = get_storage_path e p v @ lit ''/'' @ f"
  by (simp add: storage_path_of_def Let_def lit_def)

lemma storage_path_of_dir:
  "g \<noteq> [] \<Longrightarrow> last g = 47 \<Longrightarrow>
   storage_path_of e p v (g @ lit ''index.html'') = storage_path_of e p v g"
  by (simp add: storage_path_of_def Let_def lit_def)

lemma fold_single_version_app:
  "b \<noteq> [] \<Longrightarrow>
   fold_single_version cp l v (b @ c)
   = (case fold_single_version cp l v b of (l', v', g) \<Rightarrow> (l', v', g @ c))"
  by (simp add: fold_single_version_def os_path_join_def join_step_app split: option.splits)

lemma fold_single_version_last:
  "b \<noteq> [] \<Longrightarrow> fold_single_version cp l v b = (l', v', g) \<Longrightarrow> g \<noteq> [] \<and> last g = last b"
  by (auto simp: fold_single_version_def os_path_join_def last_join_step join_step_def
      split: option.splits if_splits)

lemma serve_version_dir:
  "g \<noteq> [] \<Longrightarrow> last g = 47 \<Longrightarrow>
   serve_version e w request fp vs (g @ lit ''index.html'') = serve_version e w request fp vs g"
  by (simp add: serve_version_def storage_path_of_dir split: prod.splits option.splits)

lemma serve_docs_body_named:
  "fn \<noteq> [] \<Longrightarrow>
   serve_docs_body e w request project subproject (l, v, fn)
   = (if (l = None \<or> v = None) \<and> \<not> single_version (current_project_of project subproject)
      then (Inl (Http404 (lit ''Invalid URL for project with versions'')), w)
      else (case fold_single_version (current_project_of project subproject) l v fn of
              (l', v', g) \<Rightarrow>
                (case select_final_project e (current_project_of project subproject) l' of
                   Inl err \<Rightarrow> (Inl err, w)
                 | Inr fp \<Rightarrow> serve_version e w request fp (force_default_version e fp v') g)))"
  by (simp add: serve_docs_body_def Let_def)

text \<open>
  C9. A file name that ends in a separator gets the storage path of the same file name
  with \<open>index.html\<close> appended, and the whole view answers both requests alike. A file
  name that is not empty and does not end in a separator gets its own path and nothing
  else. The dispatcher calls the storage once, with that one path.
\<close>

theorem serve_docs_directory_index:
  "storage_path_of e final_project vslug (f @ lit ''/'')
     = get_storage_path e final_project vslug @ lit ''/'' @ f @ lit ''/index.html''
   \<and> storage_path_of e final_project vslug (f @ lit ''/'')
     = storage_path_of e final_project vslug (f @ lit ''/index.html'')
   \<and> serve_docs_body e w request project subproject (lang_slug, version_slug, f @ lit ''/'')
     = serve_docs_body e w request project subproject (lang_slug, version_slug, f @ lit ''/index.html'')
   \<and> (name \<noteq> [] \<and> last name \<noteq> 47 \<longrightarrow>
        storage_path_of e final_project vslug name
        = get_storage_path e final_project vslug @ lit ''/'' @ name)
   \<and> trace (snd (storage_dispatch e w request final_project path))
     = trace w @ (if PYTHON_MEDIA w then [EvStoragePath, EvServe path] else [EvStorageUrl path])"
proof (intro conjI)
  show "storage_path_of e final_project vslug (f @ lit ''/'')
     = get_storage_path e final_project vslug @ lit ''/'' @ f @ lit ''/index.html''"
    by (rule storage_path_of_slash)
  then show "storage_path_of e final_project vslug (f @ lit ''/'')
     = storage_path_of e final_project vslug (f @ lit ''/index.html'')"
    by (simp add: storage_path_of_index)
  show "name \<noteq> [] \<and> last name \<noteq> 47 \<longrightarrow>
        storage_path_of e final_project vslug name
        = get_storage_path e final_project vslug @ lit ''/'' @ name"
    by (simp add: storage_path_of_plain)
  show "trace (snd (storage_dispatch e w request final_project path))
     = trace w @ (if PYTHON_MEDIA w then [EvStoragePath, EvServe path] else [EvStorageUrl path])"
    by (simp add: storage_dispatch_def)
  define b where "b = f @ lit ''/''"
  define cp where "cp = current_project_of project subproject"
  have b: "b \<noteq> []" "last b = 47" by (simp_all add: b_def lit_def)
  have idx: "f @ lit ''/index.html'' = b @ lit ''index.html''" by (simp add: b_def lit_def)
  have bi: "b @ lit ''index.html'' \<noteq> []" using b by simp
  obtain l' v' g where fo: "fold_single_version cp lang_slug version_slug b = (l', v', g)"
    by (cases "fold_single_version cp lang_slug version_slug b") auto
  from fold_single_version_last[OF b(1) fo] b(2) have g: "g \<noteq> []" "last g = 47" by simp_all
  have fo': "fold_single_version cp lang_slug version_slug (b @ lit ''index.html'')
             = (l', v', g @ lit ''index.html'')"
    using fold_single_version_app[OF b(1), of cp lang_slug version_slug "lit ''index.html''"] fo
    by simp
  have "serve_docs_body e w request project subproject (lang_slug, version_slug, b)
     = serve_docs_body e w request project subproject (lang_slug, version_slug, b @ lit ''index.html'')"
    unfolding serve_docs_body_named[OF b(1)] serve_docs_body_named[OF bi]
    using fo fo' serve_version_dir[OF g]
    by (auto simp: cp_def[symmetric] split: sum.splits)
  then show "serve_docs_body e w request project subproject (lang_slug, version_slug, f @ lit ''/'')
     = serve_docs_body e w request project subproject (lang_slug, version_slug, f @ lit ''/index.html'')"
    by (simp add: idx b_def)
qed

theorem serve_docs_directory_index_witness:
  "storage_path_of demo_env acme (Some (lit ''latest'')) (lit ''install/'')
     = lit ''html/acme/latest/install/index.html''
   \<and> lit ''install'' \<noteq> [] \<and> last (lit ''install'') \<noteq> 47
   \<and> storage_path_of demo_env acme (Some (lit ''latest'')) (lit ''install'')
     = lit ''html/acme/latest/install''"
  using serve_docs_directory_index [of demo_env acme "Some (lit ''latest'')" "lit ''install''"
      demo_world anonymous_request acme None None None "lit ''install''" "[]"]
  by (simp add: demo_env_def acme_def lit_def)

subsection \<open>The path handed to nginx\<close>

lemma dropWhile_keeps: "x \<in> set xs \<Longrightarrow> \<not> P x \<Longrightarrow> x \<in> set (dropWhile P xs)"
  by (induction xs) auto

lemma strip_keeps: "x \<in> set s \<Longrightarrow> x \<noteq> c \<Longrightarrow> x \<in> set (strip c s)"
  by (simp add: strip_def dropWhile_keeps)

lemma last_dropWhile_keeps: "dropWhile P xs \<noteq> [] \<Longrightarrow> last (dropWhile P xs) = last xs"
  by (induction xs) (auto split: if_splits)

lemma strip_ends:
  assumes "strip c s \<noteq> []"
  shows "hd (strip c s) \<noteq> c \<and> last (strip c s) \<noteq> c"
proof -
  define ys where "ys = dropWhile (\<lambda>x. x = c) s"
  define zs where "zs = dropWhile (\<lambda>x. x = c) (rev ys)"
  have st: "strip c s = rev zs" by (simp add: strip_def ys_def zs_def)
  with assms have zs: "zs \<noteq> []" by simp
  then have ys: "ys \<noteq> []" by (auto simp: zs_def)
  have "hd zs \<noteq> c" using zs hd_dropWhile[of "\<lambda>x. x = c" "rev ys"] by (simp add: zs_def)
  then have l: "last (strip c s) \<noteq> c" using zs by (simp add: st last_rev)
  have "last zs = last (rev ys)" using zs last_dropWhile_keeps[of "\<lambda>x. x = c" "rev ys"]
    by (simp add: zs_def)
  then have "last zs = hd ys" using ys by (simp add: last_rev)
  moreover have "hd ys \<noteq> c" using ys hd_dropWhile[of "\<lambda>x. x = c" s] by (simp add: ys_def)
  ultimately have "hd (strip c s) \<noteq> c" using zs by (simp add: st hd_rev)
  with l show ?thesis by simp
qed

lemma utf8_encode_append:
  "utf8_encode (a @ b) =
     (case utf8_encode a of None \<Rightarrow> None
      | Some x \<Rightarrow> (case utf8_encode b of None \<Rightarrow> None | Some y \<Rightarrow> Some (x @ y)))"
  by (induction a) (auto split: option.splits)

lemma quote_from_bytes_append: "quote_from_bytes (a @ b) = quote_from_bytes a @ quote_from_bytes b"
  by (simp add: quote_from_bytes_def)

lemma utf8_encode_proxito: "utf8_encode (lit ''/proxito/'') = Some (lit ''/proxito/'')"
  by (simp add: lit_def utf8_encode_cp_def)

lemma quote_proxito: "quote_from_bytes (lit ''/proxito/'') = lit ''/proxito/''"
  by (simp add: lit_def quote_from_bytes_def quote_byte_def always_safe_def iri_safe_def)

lemma iri_to_uri_proxito:
  "iri_to_uri (lit ''/proxito/'' @ s) = map_option (\<lambda>u. lit ''/proxito/'' @ u) (iri_to_uri s)"
  by (simp add: iri_to_uri_def utf8_encode_append utf8_encode_proxito quote_from_bytes_append
      quote_proxito split: option.splits)

lemma qmark_safe: "quote_byte 63 = [63]"
  by (simp add: quote_byte_def iri_safe_def lit_def)

lemma utf8_encode_keeps_ascii:
  "utf8_encode s = Some bs \<Longrightarrow> c \<in> set s \<Longrightarrow> c < 128 \<Longrightarrow> c \<in> set bs"
proof (induction s arbitrary: bs)
  case Nil
  then show ?case by simp
next
  case (Cons a s)
  then show ?case
    by (auto simp: utf8_encode_cp_def split: option.splits if_splits)
qed

lemma quote_keeps_qmark: "63 \<in> set bs \<Longrightarrow> 63 \<in> set (quote_from_bytes bs)"
  by (induction bs) (auto simp: quote_from_bytes_def qmark_safe)

lemma iri_to_uri_keeps_qmark: "iri_to_uri s = Some u \<Longrightarrow> 63 \<in> set s \<Longrightarrow> 63 \<in> set u"
  by (auto simp: iri_to_uri_def quote_keeps_qmark dest: utf8_encode_keeps_ascii)

lemma stripped_qmark: "63 \<in> set (strip 47 (p @ lit ''?'' @ q))"
  by (simp add: strip_keeps lit_def)

lemma safe_ascii: "b \<in> always_safe \<or> b \<in> iri_safe \<Longrightarrow> b < 128"
  by (auto simp: always_safe_def iri_safe_def lit_def)

lemma utf8_encode_cp_None: "utf8_encode_cp c = None \<longleftrightarrow> \<not> is_scalar c"
  by (auto simp: utf8_encode_cp_def is_scalar_def)

lemma utf8_encode_None: "utf8_encode s = None \<longleftrightarrow> \<not> (\<forall>c\<in>set s. is_scalar c)"
proof (induction s)
  case Nil
  then show ?case by simp
next
  case (Cons c s)
  then show ?case
    by (cases "utf8_encode_cp c") (auto simp: utf8_encode_cp_None[symmetric] split: option.splits)
qed

lemma iri_to_uri_None: "iri_to_uri s = None \<longleftrightarrow> \<not> (\<forall>c\<in>set s. is_scalar c)"
  by (simp add: iri_to_uri_def utf8_encode_None)

lemma utf8_encode_ascii: "\<forall>c\<in>set s. c < 128 \<Longrightarrow> utf8_encode s = Some s"
  by (induction s) (auto simp: utf8_encode_cp_def)

lemma quote_safe:
  "\<forall>c\<in>set s. c \<in> always_safe \<or> c \<in> iri_safe \<Longrightarrow> quote_from_bytes s = s"
  by (induction s) (auto simp: quote_from_bytes_def quote_byte_def)

lemma iri_to_uri_safe:
  assumes "\<forall>c\<in>set s. c \<in> always_safe \<or> c \<in> iri_safe"
  shows "iri_to_uri s = Some s"
proof -
  from assms have "\<forall>c\<in>set s. c < 128" by (blast intro: safe_ascii)
  then have "utf8_encode s = Some s" by (rule utf8_encode_ascii)
  with quote_safe[OF assms] show ?thesis by (simp add: iri_to_uri_def)
qed

lemma serve_docs_nginx_response:
  "iri_to_uri path = Some x \<Longrightarrow>
   \<exists>ctype enc. serve_docs_nginx e request fp path
     = Inr (HttpResponse (lit ''Serving internal path: '' @ path) ctype enc x)"
  by (simp add: serve_docs_nginx_def Let_def)

lemma serve_docs_nginx_error:
  "iri_to_uri path = None \<Longrightarrow> serve_docs_nginx e request fp path = Inl UnicodeEncodeError"
  by (simp add: serve_docs_nginx_def Let_def)

text \<open>
  C10, as the claim states it, fails: the header is not the path itself but its URI form.
  A file name with a space gives the path \<open>/proxito/media/html/acme/a b.html?\<close> and
  the header \<open>/proxito/media/html/acme/a%20b.html?\<close>.
\<close>

theorem serve_docs_nginx_header_path_counterexample:
  "fst (storage_dispatch demo_env (demo_world\<lparr>PYTHON_MEDIA := False\<rparr>) anonymous_request acme
            (lit ''html/acme/a b.html''))
       = Inr (HttpResponse (lit ''Serving internal path: /proxito/media/html/acme/a b.html?'')
                (lit ''application/octet-stream'') None (lit ''/proxito/media/html/acme/a%20b.html?''))
   \<and> lit ''/proxito/'' @ strip 47 (urlparse_path demo_env (storage_url demo_env (lit ''html/acme/a b.html''))
                                   @ lit ''?''
                                   @ urlparse_query demo_env (storage_url demo_env (lit ''html/acme/a b.html'')))
       = lit ''/proxito/media/html/acme/a b.html?''
   \<and> lit ''/proxito/media/html/acme/a%20b.html?'' \<noteq> lit ''/proxito/media/html/acme/a b.html?''"
  by (simp add: storage_dispatch_def nginx_path_def serve_docs_nginx_def demo_env_def
      demo_world_def after_origin_def strip_def iri_to_uri_def quote_from_bytes_def
      quote_byte_def always_safe_def iri_safe_def utf8_encode_cp_def hexdigit_def lit_def Let_def)

text \<open>
  C10, amended. When nginx serves, the path handed to \<open>_serve_docs_nginx\<close> is
  \<open>/proxito/\<close> followed by \<open>s\<close>, the path of the storage URL, a question mark and its
  query, the whole stripped of separators at both ends: \<open>s\<close> neither starts nor ends
  with a separator, and it holds the question mark, whatever the query is. When every
  character of \<open>s\<close> can be encoded, the response is built, and its header is
  \<open>/proxito/\<close> followed by the URI form of \<open>s\<close>, which holds the question mark too;
  the header is the path itself when every character of \<open>s\<close> is a safe one. When some
  character cannot be encoded, the view fails with \<open>UnicodeEncodeError\<close>.
\<close>

theorem serve_docs_nginx_header_path:
  assumes "\<not> PYTHON_MEDIA w"
    and "s = strip 47 (urlparse_path e (storage_url e path) @ lit ''?''
                        @ urlparse_query e (storage_url e path))"
  shows "fst (storage_dispatch e w request final_project path)
           = serve_docs_nginx e request final_project (lit ''/proxito/'' @ s)
       \<and> 63 \<in> set s \<and> hd s \<noteq> 47 \<and> last s \<noteq> 47
       \<and> ((\<forall>c\<in>set s. is_scalar c) \<longrightarrow>
            (\<exists>ctype enc u.
               fst (storage_dispatch e w request final_project path)
                 = Inr (HttpResponse (lit ''Serving internal path: '' @ lit ''/proxito/'' @ s)
                          ctype enc (lit ''/proxito/'' @ u))
               \<and> iri_to_uri s = Some u \<and> 63 \<in> set u))
       \<and> ((\<forall>c\<in>set s. c \<in> always_safe \<or> c \<in> iri_safe) \<longrightarrow>
            (\<exists>ctype enc.
               fst (storage_dispatch e w request final_project path)
                 = Inr (HttpResponse (lit ''Serving internal path: '' @ lit ''/proxito/'' @ s)
                          ctype enc (lit ''/proxito/'' @ s))))
       \<and> (\<not> (\<forall>c\<in>set s. is_scalar c) \<longrightarrow>
            fst (storage_dispatch e w request final_project path) = Inl UnicodeEncodeError)"
proof -
  have d: "fst (storage_dispatch e w request final_project path)
           = serve_docs_nginx e request final_project (lit ''/proxito/'' @ s)"
    using assms by (simp add: storage_dispatch_def nginx_path_def)
  have q: "63 \<in> set s" unfolding assms(2) by (rule stripped_qmark)
  then have ne: "s \<noteq> []" by auto
  have ends: "hd s \<noteq> 47 \<and> last s \<noteq> 47"
    using ne strip_ends[of 47] unfolding assms(2) by blast
  have enc: "\<exists>ctype enc u.
               fst (storage_dispatch e w request final_project path)
                 = Inr (HttpResponse (lit ''Serving internal path: '' @ lit ''/proxito/'' @ s)
                          ctype enc (lit ''/proxito/'' @ u))
               \<and> iri_to_uri s = Some u \<and> 63 \<in> set u"
    if sc: "\<forall>c\<in>set s. is_scalar c"
  proof -
    from sc obtain u where u: "iri_to_uri s = Some u"
      using iri_to_uri_None[of s] by (cases "iri_to_uri s") auto
    then have "iri_to_uri (lit ''/proxito/'' @ s) = Some (lit ''/proxito/'' @ u)"
      by (simp add: iri_to_uri_proxito)
    from serve_docs_nginx_response[OF this, of e request final_project]
    obtain ctype enc where "serve_docs_nginx e request final_project (lit ''/proxito/'' @ s)
       = Inr (HttpResponse (lit ''Serving internal path: '' @ lit ''/proxito/'' @ s) ctype enc
                (lit ''/proxito/'' @ u))" by auto
    moreover from u q have "63 \<in> set u" by (rule iri_to_uri_keeps_qmark)
    ultimately show ?thesis using d u by auto
  qed
  have safe: "\<exists>ctype enc.
               fst (storage_dispatch e w request final_project path)
                 = Inr (HttpResponse (lit ''Serving internal path: '' @ lit ''/proxito/'' @ s)
                          ctype enc (lit ''/proxito/'' @ s))"
    if sf: "\<forall>c\<in>set s. c \<in> always_safe \<or> c \<in> iri_safe"
  proof -
    from iri_to_uri_safe[OF sf] have "iri_to_uri (lit ''/proxito/'' @ s) = Some (lit ''/proxito/'' @ s)"
      by (simp add: iri_to_uri_proxito)
    from serve_docs_nginx_response[OF this, of e request final_project] d show ?thesis by auto
  qed
  have err: "fst (storage_dispatch e w request final_project path) = Inl UnicodeEncodeError"
    if ns: "\<not> (\<forall>c\<in>set s. is_scalar c)"
  proof -
    from ns have "iri_to_uri s = None" by (simp add: iri_to_uri_None)
    then have "iri_to_uri (lit ''/proxito/'' @ s) = None" by (simp add: iri_to_uri_proxito)
    from serve_docs_nginx_error[OF this] d show ?thesis by simp
  qed
  from d q ends enc safe err show ?thesis by blast
qed

lemma nginx_header_example:
  "serve_docs_nginx demo_env anonymous_request acme (lit ''/proxito/media/html/acme/a.html?'')
   = Inr (HttpResponse (lit ''Serving internal path: /proxito/media/html/acme/a.html?'')
            (lit ''application/octet-stream'') None (lit ''/proxito/media/html/acme/a.html?''))"
  by (simp add: serve_docs_nginx_def demo_env_def iri_to_uri_def quote_from_bytes_def
      quote_byte_def always_safe_def iri_safe_def utf8_encode_cp_def lit_def Let_def)

theorem serve_docs_nginx_header_path_witness:
  "\<not> PYTHON_MEDIA (demo_world\<lparr>PYTHON_MEDIA := False\<rparr>)
   \<and> fst (storage_dispatch demo_env (demo_world\<lparr>PYTHON_MEDIA := False\<rparr>) anonymous_request acme
            (lit ''html/acme/a.html''))
       = Inr (HttpResponse (lit ''Serving internal path: /proxito/media/html/acme/a.html?'')
                (lit ''application/octet-stream'') None (lit ''/proxito/media/html/acme/a.html?''))"
proof -
  have h: "\<not> PYTHON_MEDIA (demo_world\<lparr>PYTHON_MEDIA := False\<rparr>)" by simp
  have s: "lit ''media/html/acme/a.html?''
           = strip 47 (urlparse_path demo_env (storage_url demo_env (lit ''html/acme/a.html'')) @ lit ''?''
                       @ urlparse_query demo_env (storage_url demo_env (lit ''html/acme/a.html'')))"
    by (simp add: demo_env_def after_origin_def strip_def lit_def)
  have a: "lit ''/proxito/'' @ lit ''media/html/acme/a.html?'' = lit ''/proxito/media/html/acme/a.html?''"
    by (simp add: lit_def)
  from serve_docs_nginx_header_path [OF h s, of anonymous_request acme]
  have "fst (storage_dispatch demo_env (demo_world\<lparr>PYTHON_MEDIA := False\<rparr>) anonymous_request acme
               (lit ''html/acme/a.html''))
        = serve_docs_nginx demo_env anonymous_request acme
            (lit ''/proxito/'' @ lit ''media/html/acme/a.html?'')"
    by blast
  with h show ?thesis unfolding a by (simp add: nginx_header_example)
qed

subsection \<open>The permission check and the version lookup\<close>

text \<open>
  C1. The claim asks for a 401 and no storage access when the permission check fails for
  an authenticated user. The view does not do that: in the small installation nobody may
  view anything, yet the authenticated request for \<open>/en/latest/index.html\<close> of \<open>acme\<close>
  is served from the storage. \<open>_serve_401\<close> exists and is never called.
\<close>

theorem serve_docs_forbidden_member_is_served:
  "is_authenticated member_request
   \<and> \<not> has_perm demo_env member_request
         (locate_version demo_env acme (Some (lit ''latest'')))
   \<and> serve_docs demo_env demo_world member_request (Some acme) None
        (None, None, Some (lit ''en''), Some (lit ''latest''), lit ''index.html'')
      = (Inr (FileResponse (lit ''html/acme/latest/index.html'')),
         demo_world\<lparr>trace := [EvHasPerm (Some \<lparr>version_pk = 1, v_slug = lit ''latest''\<rparr>),
                               EvStoragePath,
                               EvServe (lit ''html/acme/latest/index.html'')]\<rparr>)
   \<and> FileResponse (lit ''html/acme/latest/index.html'') \<noteq> serve_401 member_request acme"
  by (simp add: serve_docs_def map_project_slug_def map_subproject_slug_def serve_docs_body_def
      current_project_of_def fold_single_version_def select_final_project_def
      force_default_version_def serve_version_def locate_version_def access_gate_def
      storage_path_of_def storage_dispatch_def serve_401_def
      demo_env_def demo_world_def member_request_def anonymous_request_def acme_def
      lit_def Let_def)

text \<open>
  C2, as the claim states it, fails: \<open>acme\<close> has no version \<open>v9\<close>, and where everybody
  may view everything the request for \<open>/en/v9/index.html\<close> is not answered with
  \<open>Http404\<close>: the permission is asked for the absent version and the storage is read.
\<close>

theorem serve_docs_absent_version_counterexample:
  "locate_version (demo_env\<lparr>has_perm := \<lambda>r v. True\<rparr>) acme (Some (lit ''v9'')) = None
   \<and> serve_docs_body (demo_env\<lparr>has_perm := \<lambda>r v. True\<rparr>) demo_world anonymous_request acme None
        (Some (lit ''en''), Some (lit ''v9''), lit ''index.html'')
      = (Inr (FileResponse (lit ''html/acme/v9/index.html'')),
         demo_world\<lparr>trace := [EvHasPerm None, EvStoragePath,
                               EvServe (lit ''html/acme/v9/index.html'')]\<rparr>)"
  by (simp add: serve_docs_body_def
      current_project_of_def fold_single_version_def select_final_project_def
      force_default_version_def serve_version_def locate_version_def access_gate_def
      storage_path_of_def storage_dispatch_def
      demo_env_def demo_world_def anonymous_request_def acme_def
      lit_def Let_def)

lemma locate_version_None:
  "locate_version e final_project vslug = None
   \<longleftrightarrow> (\<forall>v\<in>set (versions_for_project e final_project). Some (v_slug v) \<noteq> vslug)"
  by (simp add: locate_version_def first_filter_None)

text \<open>
  C2, amended. When the final project has no version with the slug, the lookup gives
  \<open>None\<close> and raises nothing. The permission is then asked for the absent version: when
  it is granted, the storage dispatch runs on the path built from the slug; when it is
  refused to an anonymous user, the login challenge is the response. In every case an
  error that the view returns is the error the storage dispatch returns on that path, so
  a not-found for an unknown version comes from the storage only.
\<close>

theorem serve_version_absent_version:
  assumes "\<forall>v\<in>set (versions_for_project e final_project). Some (v_slug v) \<noteq> vslug"
  shows "locate_version e final_project vslug = None
       \<and> take (Suc (length (trace w)))
            (trace (snd (serve_version e w request final_project vslug filename)))
          = trace w @ [EvHasPerm None]
       \<and> (has_perm e request None \<longrightarrow>
            serve_version e w request final_project vslug filename
            = storage_dispatch e (w\<lparr>trace := trace w @ [EvHasPerm None]\<rparr>) request final_project
                (storage_path_of e final_project vslug filename))
       \<and> (\<not> has_perm e request None \<and> \<not> is_authenticated request \<longrightarrow>
            (\<exists>u. serve_version e w request final_project vslug filename
                  = (Inr (CasLogin u (absolute_uri request)),
                     w\<lparr>CAS_SERVER_URL := u, trace := trace w @ [EvHasPerm None, EvCasLogin]\<rparr>)))
       \<and> (\<forall>err. fst (serve_version e w request final_project vslug filename) = Inl err \<longrightarrow>
            fst (storage_dispatch e (w\<lparr>trace := trace w @ [EvHasPerm None]\<rparr>) request
                   final_project (storage_path_of e final_project vslug filename)) = Inl err)"
proof -
  from assms have n: "locate_version e final_project vslug = None"
    by (simp add: locate_version_None)
  have t: "take (Suc (length (trace w)))
            (trace (snd (serve_version e w request final_project vslug filename)))
          = trace w @ [EvHasPerm None]"
    using n by (simp add: serve_version_def access_gate_def storage_dispatch_def Let_def)
  have g: "has_perm e request None \<longrightarrow>
            serve_version e w request final_project vslug filename
            = storage_dispatch e (w\<lparr>trace := trace w @ [EvHasPerm None]\<rparr>) request final_project
                (storage_path_of e final_project vslug filename)"
    using n by (simp add: serve_version_def access_gate_def Let_def)
  have c: "\<not> has_perm e request None \<and> \<not> is_authenticated request \<longrightarrow>
            (\<exists>u. serve_version e w request final_project vslug filename
                  = (Inr (CasLogin u (absolute_uri request)),
                     w\<lparr>CAS_SERVER_URL := u, trace := trace w @ [EvHasPerm None, EvCasLogin]\<rparr>))"
    using n by (simp add: serve_version_def access_gate_def Let_def)
  have r: "\<forall>err. fst (serve_version e w request final_project vslug filename) = Inl err \<longrightarrow>
            fst (storage_dispatch e (w\<lparr>trace := trace w @ [EvHasPerm None]\<rparr>) request
                   final_project (storage_path_of e final_project vslug filename)) = Inl err"
    using n by (simp add: serve_version_def access_gate_def Let_def)
  from n t g c r show ?thesis by blast
qed

theorem serve_version_absent_version_witness:
  "versions_for_project (demo_env\<lparr>has_perm := \<lambda>r v. True\<rparr>) acme
     = [\<lparr>version_pk = 1, v_slug = lit ''latest''\<rparr>]
   \<and> locate_version (demo_env\<lparr>has_perm := \<lambda>r v. True\<rparr>) acme (Some (lit ''v9'')) = None
   \<and> serve_version (demo_env\<lparr>has_perm := \<lambda>r v. True\<rparr>) demo_world anonymous_request acme
        (Some (lit ''v9'')) (lit ''index.html'')
      = storage_dispatch (demo_env\<lparr>has_perm := \<lambda>r v. True\<rparr>)
          (demo_world\<lparr>trace := trace demo_world @ [EvHasPerm None]\<rparr>) anonymous_request acme
          (storage_path_of (demo_env\<lparr>has_perm := \<lambda>r v. True\<rparr>) acme (Some (lit ''v9''))
             (lit ''index.html''))"
proof -
  have h: "\<forall>v\<in>set (versions_for_project (demo_env\<lparr>has_perm := \<lambda>r v. True\<rparr>) acme).
             Some (v_slug v) \<noteq> Some (lit ''v9'')"
    by (simp add: demo_env_def acme_def lit_def)
  have p: "has_perm (demo_env\<lparr>has_perm := \<lambda>r v. True\<rparr>) anonymous_request None" by simp
  have vs: "versions_for_project (demo_env\<lparr>has_perm := \<lambda>r v. True\<rparr>) acme
            = [\<lparr>version_pk = 1, v_slug = lit ''latest''\<rparr>]"
    by (simp add: demo_env_def acme_def)
  show ?thesis
    using vs p serve_version_absent_version [OF h, where w = demo_world
        and request = anonymous_request and filename = "lit ''index.html''"]
    by blast
qed

subsection \<open>Single-version projects\<close>






subsection \<open>The header is ASCII, and decoding it\<close>

lemma dm64: "(c::nat) div 4096 = c div 64 div 64" "(c::nat) div 262144 = c div 64 div 64 div 64"
  by (simp_all add: div_mult2_eq[symmetric])

lemma recon3: "(c::nat) div 4096 * 4096 + c div 64 mod 64 * 64 + c mod 64 = c"
proof -
  have "c div 64 = (c div 64 div 64) * 64 + c div 64 mod 64" by simp
  moreover have "c = (c div 64) * 64 + c mod 64" by simp
  ultimately show ?thesis unfolding dm64 by linarith
qed

lemma recon4:
  "(c::nat) div 262144 * 262144 + c div 4096 mod 64 * 4096 + c div 64 mod 64 * 64 + c mod 64 = c"
proof -
  have "c div 64 div 64 = (c div 64 div 64 div 64) * 64 + c div 64 div 64 mod 64" by simp
  moreover have "c div 64 = (c div 64 div 64) * 64 + c div 64 mod 64" by simp
  moreover have "c = (c div 64) * 64 + c mod 64" by simp
  ultimately show ?thesis unfolding dm64 by linarith
qed

lemma utf8_decode_encode_cp:
  "utf8_encode_cp c = Some bs \<Longrightarrow> utf8_decode (bs @ rest) = map_option ((#) c) (utf8_decode rest)"
  unfolding utf8_encode_cp_def
  by (auto simp: is_cont_def Let_def recon3 recon4 split: if_splits)

lemma utf8_decode_encode: "utf8_encode s = Some bs \<Longrightarrow> utf8_decode bs = Some s"
proof (induction s arbitrary: bs)
  case Nil
  then show ?case by simp
next
  case (Cons c s)
  from Cons.prems obtain b1 b2 where e: "utf8_encode_cp c = Some b1" "utf8_encode s = Some b2" "bs = b1 @ b2"
    by (auto split: option.splits)
  from Cons.IH[OF e(2)] utf8_decode_encode_cp[OF e(1), of b2] e(3) show ?case by simp
qed

lemma utf8_encode_cp_bytes: "utf8_encode_cp c = Some bs \<Longrightarrow> b \<in> set bs \<Longrightarrow> b < 256"
  unfolding utf8_encode_cp_def by (auto split: if_splits)

lemma utf8_encode_bytes: "utf8_encode s = Some bs \<Longrightarrow> b \<in> set bs \<Longrightarrow> b < 256"
proof (induction s arbitrary: bs)
  case Nil
  then show ?case by simp
next
  case (Cons c s)
  then show ?case by (auto split: option.splits dest: utf8_encode_cp_bytes)
qed

lemma hexdigit_ascii: "n < 16 \<Longrightarrow> hexdigit n < 128"
  by (simp add: hexdigit_def)

lemma quote_byte_ascii: "b < 256 \<Longrightarrow> c \<in> set (quote_byte b) \<Longrightarrow> c < 128"
  by (auto simp: quote_byte_def safe_ascii hexdigit_ascii split: if_splits)

lemma quote_from_bytes_ascii:
  "\<forall>b\<in>set bs. b < 256 \<Longrightarrow> c \<in> set (quote_from_bytes bs) \<Longrightarrow> c < 128"
  by (auto simp: quote_from_bytes_def dest: quote_byte_ascii)

lemma iri_to_uri_ascii:
  assumes "iri_to_uri s = Some u" "c \<in> set u"
  shows "c < 128"
proof -
  from assms(1) obtain bs where bs: "utf8_encode s = Some bs" "u = quote_from_bytes bs"
    by (auto simp: iri_to_uri_def)
  from bs(1) have "\<forall>b\<in>set bs. b < 256" by (blast dest: utf8_encode_bytes)
  with assms(2) bs(2) show ?thesis by (blast dest: quote_from_bytes_ascii)
qed

lemma hexval_hexdigit: "n < 16 \<Longrightarrow> hexval (hexdigit n) = n \<and> is_hex (hexdigit n)"
  by (auto simp: hexval_def hexdigit_def is_hex_def)

lemma unquote_cons:
  "unquote_to_bytes (c # ys)
   = (if c = 37 \<and> starts_hex2 ys
      then (16 * hexval (hd ys) + hexval (hd (tl ys))) # unquote_to_bytes (tl (tl ys))
      else c # unquote_to_bytes ys)"
proof (cases ys)
  case Nil
  then show ?thesis by simp
next
  case (Cons h t)
  then show ?thesis by (cases t) auto
qed

lemma unquote_quote_byte:
  assumes "b < 256" "b = 37 \<longrightarrow> \<not> starts_hex2 ys"
  shows "unquote_to_bytes (quote_byte b @ ys) = b # unquote_to_bytes ys"
proof (cases "b \<in> always_safe \<or> b \<in> iri_safe")
  case True
  with assms(2) show ?thesis by (auto simp: quote_byte_def unquote_cons)
next
  case False
  from assms(1) have d: "b div 16 < 16" "b mod 16 < 16" by simp_all
  have "16 * (b div 16) + b mod 16 = b" by simp
  with False hexval_hexdigit[OF d(1)] hexval_hexdigit[OF d(2)] show ?thesis
    by (simp add: quote_byte_def)
qed

lemma is_hex_safe: "is_hex c \<Longrightarrow> c \<in> always_safe"
proof -
  assume "is_hex c"
  then have "c = 48 \<or> c = 49 \<or> c = 50 \<or> c = 51 \<or> c = 52 \<or> c = 53 \<or> c = 54 \<or> c = 55
             \<or> c = 56 \<or> c = 57 \<or> c = 65 \<or> c = 66 \<or> c = 67 \<or> c = 68 \<or> c = 69 \<or> c = 70
             \<or> c = 97 \<or> c = 98 \<or> c = 99 \<or> c = 100 \<or> c = 101 \<or> c = 102"
    unfolding is_hex_def by arith
  then show ?thesis by (auto simp: always_safe_def lit_def)
qed

lemma not_hex_37: "\<not> is_hex 37"
  by (simp add: is_hex_def)

lemma quote_byte_hd: "hd (quote_byte b) = (if b \<in> always_safe \<or> b \<in> iri_safe then b else 37)"
  by (simp add: quote_byte_def)

lemma quote_byte_hex: "is_hex b \<Longrightarrow> quote_byte b = [b]"
  by (simp add: quote_byte_def is_hex_safe)

lemma quote_byte_nonhex: "\<not> is_hex b \<Longrightarrow> \<exists>c t. quote_byte b = c # t \<and> \<not> is_hex c"
  by (auto simp: quote_byte_def not_hex_37)

lemma starts_hex2_nonhex: "\<not> is_hex c \<Longrightarrow> \<not> starts_hex2 (c # xs)"
  by (cases xs) auto

lemma starts_hex2_quote: "starts_hex2 (quote_from_bytes bs) = starts_hex2 bs"
proof (cases bs)
  case Nil
  then show ?thesis by (simp add: quote_from_bytes_def)
next
  case (Cons h t)
  note ht = this
  show ?thesis
  proof (cases "is_hex h")
    case False
    from quote_byte_nonhex[OF False] obtain c r where "quote_byte h = c # r" "\<not> is_hex c" by blast
    with False ht show ?thesis
      by (simp add: quote_from_bytes_def starts_hex2_nonhex)
  next
    case True
    show ?thesis
    proof (cases t)
      case Nil
      with True ht show ?thesis by (simp add: quote_from_bytes_def quote_byte_hex)
    next
      case (Cons l t')
      show ?thesis
      proof (cases "is_hex l")
        case True
        with \<open>is_hex h\<close> ht Cons show ?thesis by (simp add: quote_from_bytes_def quote_byte_hex)
      next
        case False
        from quote_byte_nonhex[OF False] obtain c r where "quote_byte l = c # r" "\<not> is_hex c" by blast
        with False \<open>is_hex h\<close> ht Cons show ?thesis
          by (simp add: quote_from_bytes_def quote_byte_hex)
      qed
    qed
  qed
qed

lemma unquote_quote:
  "\<forall>b\<in>set bs. b < 256 \<Longrightarrow> no_pct_escape bs \<Longrightarrow> unquote_to_bytes (quote_from_bytes bs) = bs"
proof (induction bs)
  case Nil
  then show ?case by (simp add: quote_from_bytes_def)
next
  case (Cons b bs)
  have q: "quote_from_bytes (b # bs) = quote_byte b @ quote_from_bytes bs"
    by (simp add: quote_from_bytes_def)
  from Cons.prems have "b < 256" "b = 37 \<longrightarrow> \<not> starts_hex2 (quote_from_bytes bs)"
    by (simp_all add: starts_hex2_quote)
  from unquote_quote_byte[OF this] Cons show ?case by (simp add: q)
qed


lemma no_pct_escape_skip: "\<forall>b\<in>set xs. b \<noteq> 37 \<Longrightarrow> no_pct_escape (xs @ ys) = no_pct_escape ys"
  by (induction xs) auto

lemma utf8_encode_cp_shape:
  "utf8_encode_cp c = Some bs \<Longrightarrow>
   (c < 128 \<and> bs = [c]) \<or> (128 \<le> c \<and> bs \<noteq> [] \<and> (\<forall>x\<in>set bs. 128 \<le> x))"
  unfolding utf8_encode_cp_def by (auto split: if_splits)

lemma is_hex_ascii: "is_hex c \<Longrightarrow> c < 128"
  by (auto simp: is_hex_def)

lemma starts_hex2_high: "bs \<noteq> [] \<Longrightarrow> \<forall>x\<in>set bs. 128 \<le> x \<Longrightarrow> \<not> starts_hex2 (bs @ ys)"
proof (cases bs)
  case Nil
  assume "bs \<noteq> []"
  with Nil show ?thesis by simp
next
  case (Cons b r)
  assume "\<forall>x\<in>set bs. 128 \<le> x"
  with Cons have "\<not> is_hex b" by (auto dest: is_hex_ascii)
  with Cons show ?thesis by (simp add: starts_hex2_nonhex)
qed

lemma starts_hex2_utf8: "utf8_encode t = Some bt \<Longrightarrow> starts_hex2 bt = starts_hex2 t"
proof (cases t)
  case Nil
  assume "utf8_encode t = Some bt"
  with Nil show ?thesis by simp
next
  case (Cons h t1)
  assume e: "utf8_encode t = Some bt"
  with Cons obtain bh b1 where bh: "utf8_encode_cp h = Some bh" "utf8_encode t1 = Some b1" "bt = bh @ b1"
    by (auto split: option.splits)
  from utf8_encode_cp_shape[OF bh(1)] show ?thesis
  proof
    assume hi: "128 \<le> h \<and> bh \<noteq> [] \<and> (\<forall>x\<in>set bh. 128 \<le> x)"
    then have "\<not> is_hex h" by (auto dest: is_hex_ascii)
    with hi Cons bh(3) show ?thesis by (simp add: starts_hex2_high starts_hex2_nonhex)
  next
    assume lo: "h < 128 \<and> bh = [h]"
    show ?thesis
    proof (cases t1)
      case Nil
      with lo Cons bh show ?thesis by simp
    next
      case (Cons l t2)
      with bh(2) obtain bl b2 where bl: "utf8_encode_cp l = Some bl" "utf8_encode t2 = Some b2" "b1 = bl @ b2"
        by (auto split: option.splits)
      from utf8_encode_cp_shape[OF bl(1)] show ?thesis
      proof
        assume "l < 128 \<and> bl = [l]"
        with lo bl bh \<open>t = h # t1\<close> Cons show ?thesis by simp
      next
        assume hi: "128 \<le> l \<and> bl \<noteq> [] \<and> (\<forall>x\<in>set bl. 128 \<le> x)"
        then have nl: "\<not> is_hex l" by (auto dest: is_hex_ascii)
        from hi obtain x r where xr: "bl = x # r" "128 \<le> x" by (cases bl) auto
        then have "\<not> is_hex x" by (auto dest: is_hex_ascii)
        with nl lo bl bh xr \<open>t = h # t1\<close> Cons show ?thesis by simp
      qed
    qed
  qed
qed

lemma no_pct_escape_utf8:
  "utf8_encode s = Some bs \<Longrightarrow> no_pct_escape s \<Longrightarrow> no_pct_escape bs"
proof (induction s arbitrary: bs)
  case Nil
  then show ?case by simp
next
  case (Cons c t)
  from Cons.prems(1) obtain bc bt where b: "utf8_encode_cp c = Some bc" "utf8_encode t = Some bt" "bs = bc @ bt"
    by (auto split: option.splits)
  from Cons.prems(2) have t: "no_pct_escape t" and c: "c = 37 \<longrightarrow> \<not> starts_hex2 t" by simp_all
  from Cons.IH[OF b(2) t] have ih: "no_pct_escape bt" .
  show ?case
  proof (cases "c = 37")
    case True
    with b(1) have "bc = [37]" by (simp add: utf8_encode_cp_def)
    with True c ih b(3) starts_hex2_utf8[OF b(2)] show ?thesis by simp
  next
    case False
    from utf8_encode_cp_shape[OF b(1)] False have "\<forall>x\<in>set bc. x \<noteq> 37" by auto
    with ih b(3) show ?thesis by (simp add: no_pct_escape_skip)
  qed
qed

lemma uri_decode_iri_to_uri:
  assumes "iri_to_uri s = Some u" "no_pct_escape s"
  shows "uri_decode u = Some s"
proof -
  from assms(1) obtain bs where bs: "utf8_encode s = Some bs" "u = quote_from_bytes bs"
    by (auto simp: iri_to_uri_def)
  from bs(1) have "\<forall>b\<in>set bs. b < 256" by (blast dest: utf8_encode_bytes)
  moreover from bs(1) assms(2) have "no_pct_escape bs" by (rule no_pct_escape_utf8)
  ultimately have "unquote_to_bytes u = bs" unfolding bs(2) by (rule unquote_quote)
  with utf8_decode_encode[OF bs(1)] show ?thesis by (simp add: uri_decode_def)
qed

text \<open>
  C8, as the claim states it, fails: a percent sign is a safe character of
  \<open>iri_to_uri\<close>, so an escape that the path already holds, as the signature of a signed
  URL does, goes into the header unchanged, and decoding the header gives the escaped
  character, not the three characters of the path.
\<close>

theorem serve_docs_nginx_roundtrip_counterexample:
  "serve_docs_nginx demo_env anonymous_request acme (lit ''/proxito/a.html?Signature=x%2By'')
   = Inr (HttpResponse (lit ''Serving internal path: /proxito/a.html?Signature=x%2By'')
            (lit ''application/octet-stream'') None (lit ''/proxito/a.html?Signature=x%2By''))
   \<and> uri_decode (lit ''/proxito/a.html?Signature=x%2By'') = Some (lit ''/proxito/a.html?Signature=x+y'')
   \<and> lit ''/proxito/a.html?Signature=x+y'' \<noteq> lit ''/proxito/a.html?Signature=x%2By''"
  by (simp add: serve_docs_nginx_def demo_env_def iri_to_uri_def quote_from_bytes_def
      quote_byte_def always_safe_def iri_safe_def utf8_encode_cp_def lit_def Let_def
      uri_decode_def is_hex_def hexval_def)

text \<open>
  C8, amended. The header of every response of \<open>_serve_docs_nginx\<close> is the URI form of
  the path and holds ASCII characters only, whatever characters the path holds. Decoding
  the header gives the path back when no percent sign of the path is followed by two
  hexadecimal digits.
\<close>

theorem serve_docs_nginx_header_ascii:
  assumes "serve_docs_nginx e request final_project path = Inr (HttpResponse body ctype enc x)"
  shows "iri_to_uri path = Some x
       \<and> (\<forall>c\<in>set x. c < 128)
       \<and> (no_pct_escape path \<longrightarrow> uri_decode x = Some path)"
proof -
  from assms have x: "iri_to_uri path = Some x"
    by (auto simp: serve_docs_nginx_def Let_def split: option.splits)
  then show ?thesis by (auto dest: iri_to_uri_ascii uri_decode_iri_to_uri)
qed

lemma nginx_header_unicode_example:
  "serve_docs_nginx demo_env anonymous_request acme [47, 233, 20013, 128512, 32, 63]
   = Inr (HttpResponse (lit ''Serving internal path: '' @ [47, 233, 20013, 128512, 32, 63])
            (lit ''application/octet-stream'') None (lit ''/%C3%A9%E4%B8%AD%F0%9F%98%80%20?''))"
  by (simp add: serve_docs_nginx_def demo_env_def iri_to_uri_def quote_from_bytes_def
      quote_byte_def always_safe_def iri_safe_def utf8_encode_cp_def lit_def Let_def hexdigit_def)

theorem serve_docs_nginx_header_ascii_witness:
  "serve_docs_nginx demo_env anonymous_request acme [47, 233, 20013, 128512, 32, 63]
   = Inr (HttpResponse (lit ''Serving internal path: '' @ [47, 233, 20013, 128512, 32, 63])
            (lit ''application/octet-stream'') None (lit ''/%C3%A9%E4%B8%AD%F0%9F%98%80%20?''))
   \<and> no_pct_escape [47, 233, 20013, 128512, 32, 63]
   \<and> uri_decode (lit ''/%C3%A9%E4%B8%AD%F0%9F%98%80%20?'') = Some [47, 233, 20013, 128512, 32, 63]"
proof -
  have n: "no_pct_escape [47, 233, 20013, 128512, 32, 63]" by simp
  show ?thesis
    using n nginx_header_unicode_example
      serve_docs_nginx_header_ascii [OF nginx_header_unicode_example]
    by blast
qed

end
